theory Spec2Isabelle
  imports Main "HOL-Library.Word"
begin

section \<open>Checkpoints of a fully-connected network\<close>

text \<open>
  The notebook "Saving and Loading Models" builds a checkpoint dictionary from a live
  \<open>fc_model.Network\<close>, writes it with \<open>torch.save\<close>, and reads it back with the function
  \<open>load_checkpoint\<close>. This theory embeds those two cells, the data they touch, and the
  training loop of the notebook "Training Neural Networks".
\<close>

subsection \<open>Tensors, layers, networks\<close>

text \<open>
  A tensor is its shape (\<open>torch.Size\<close>) and its elements in row-major order. The
  elements are single-precision floats, kept as their 32-bit patterns, so that equality
  of two tensors is bit-for-bit equality.
\<close>

type_synonym float32 = "32 word"

record tensor =
  shape :: "nat list"
  data :: "float32 list"

text \<open>
  \<open>nn.Linear\<close> as the notebook prints it
  (\<open>Linear(in_features=784, out_features=512, bias=True)\<close>): two sizes and two
  parameters.
\<close>

record Linear =
  in_features :: nat
  out_features :: nat
  weight :: tensor
  bias :: tensor

text \<open>
  \<open>fc_model.Network\<close> as the notebook prints it: a \<open>ModuleList\<close> named
  \<open>hidden_layers\<close> and a layer named \<open>output\<close>. The \<open>Dropout\<close> module has no
  parameters and is left out.
\<close>

record network =
  hidden_layers :: "Linear list"
  "output" :: Linear

text \<open>
  The values a new layer is filled with are random in the library; \<open>init\<close> stands for
  the draw: it gives the elements for a tensor of the given shape.
\<close>

type_synonym initializer = "nat list \<Rightarrow> float32 list"

definition nn_Linear :: "nat \<Rightarrow> nat \<Rightarrow> initializer \<Rightarrow> Linear" where
  "nn_Linear n_in n_out init =
     \<lparr>in_features = n_in, out_features = n_out,
      weight = \<lparr>shape = [n_out, n_in], data = init [n_out, n_in]\<rparr>,
      bias = \<lparr>shape = [n_out], data = init [n_out]\<rparr>\<rparr>"

text \<open>
  Modelled from the spec: \<open>fc_model.Network(input_size, output_size, hidden_layers)\<close>;
  the file \<open>fc_model.py\<close> is not among the sources. The spec's data model: the
  descriptor is an input size, an output size and the ordered hidden widths, and
  "weight array shape for layer i is (width[i], width[i-1]); bias shape is (width[i],)".
  So each hidden width gets a layer fed by the width before it, and the output layer is
  fed by the last of them. The layers printed in the notebook
  (784 \<rightarrow> 512 \<rightarrow> 256 \<rightarrow> 128 \<rightarrow> 10) are of this form. Neither the spec nor the
  notebook says what the constructor does with no hidden width at all; here the output
  layer is then fed by the input.
\<close>

fun linear_chain :: "nat \<Rightarrow> nat list \<Rightarrow> initializer \<Rightarrow> Linear list" where
  "linear_chain w [] init = []"
| "linear_chain w (h # hs) init = nn_Linear w h init # linear_chain h hs init"

definition Network :: "nat \<Rightarrow> nat \<Rightarrow> nat list \<Rightarrow> initializer \<Rightarrow> network" where
  "Network input_size output_size hidden init =
     \<lparr>hidden_layers = linear_chain input_size hidden init,
      output = nn_Linear (last (input_size # hidden)) output_size init\<rparr>"

subsection \<open>The state dict\<close>

text \<open>Python's \<open>str(i)\<close> for a non-negative \<open>i\<close>.\<close>

definition digit_char :: "nat \<Rightarrow> char" where
  "digit_char d = ''0123456789'' ! d"

fun str_nat :: "nat \<Rightarrow> string" where
  "str_nat n = (if n < 10 then [digit_char n] else str_nat (n div 10) @ [digit_char (n mod 10)])"

declare str_nat.simps [simp del]

text \<open>
  Modelled from the spec: \<open>model.state_dict()\<close>, a method of the tensor library. The
  spec's parameter set maps a layer identifier to an array, weight and bias per layer.
  The identifiers and their order are those the notebook records:
  \<open>odict_keys(['hidden_layers.0.weight', 'hidden_layers.0.bias', ..., 'output.weight',
  'output.bias'])\<close>. An \<open>OrderedDict\<close> is an association list here, read with
  \<open>map_of\<close>: should a key stand twice, the first entry is the one that counts.
\<close>

type_synonym state_dict_t = "(string \<times> tensor) list"

definition Linear_state :: "string \<Rightarrow> Linear \<Rightarrow> state_dict_t" where
  "Linear_state prefix l = [(prefix @ ''weight'', weight l), (prefix @ ''bias'', bias l)]"

fun ModuleList_state :: "string \<Rightarrow> nat \<Rightarrow> Linear list \<Rightarrow> state_dict_t" where
  "ModuleList_state prefix i [] = []"
| "ModuleList_state prefix i (l # ls) =
     Linear_state (prefix @ str_nat i @ ''.'') l @ ModuleList_state prefix (Suc i) ls"

definition state_dict :: "network \<Rightarrow> state_dict_t" where
  "state_dict model =
     ModuleList_state ''hidden_layers.'' 0 (hidden_layers model)
     @ Linear_state ''output.'' (output model)"

subsection \<open>Building and persisting the checkpoint\<close>

text \<open>
  The values a checkpoint dictionary holds. Sizes are naturals: \<open>out_features\<close> of a
  layer and the literals 784 and 10 are never negative.
\<close>

datatype pyval = PyInt nat | PyList "nat list" | PyStateDict state_dict_t

type_synonym pydict = "(string \<times> pyval) list"

text \<open>
  The cell
  \<^verbatim>\<open>
  checkpoint = {'input_size': 784,
                'output_size': 10,
                'hidden_layers': [each.out_features for each in model.hidden_layers],
                'state_dict': model.state_dict()}
  \<close>
\<close>

definition checkpoint :: "network \<Rightarrow> pydict" where
  "checkpoint model =
     [(''input_size'', PyInt 784),
      (''output_size'', PyInt 10),
      (''hidden_layers'', PyList (map out_features (hidden_layers model))),
      (''state_dict'', PyStateDict (state_dict model))]"

text \<open>
  \<open>torch.save(obj, f)\<close> and \<open>torch.load(f)\<close> against a file system that maps a path
  to the object stored there. A path with no file makes \<open>torch.load\<close> raise.
\<close>

type_synonym filesystem = "string \<Rightarrow> pydict option"

datatype error =
    FileNotFoundError string
  | KeyError string
  | TypeError
  | RuntimeError "string list" "string list" "(string \<times> nat list \<times> nat list) list"

definition torch_save :: "pydict \<Rightarrow> string \<Rightarrow> filesystem \<Rightarrow> filesystem" where
  "torch_save obj f fs = fs(f \<mapsto> obj)"

definition torch_load :: "string \<Rightarrow> filesystem \<Rightarrow> error + pydict" where
  "torch_load f fs = (case fs f of None \<Rightarrow> Inl (FileNotFoundError f) | Some obj \<Rightarrow> Inr obj)"

text \<open>\<open>d[k]\<close> on a dictionary.\<close>

definition getitem :: "pydict \<Rightarrow> string \<Rightarrow> error + pyval" where
  "getitem d k = (case map_of d k of None \<Rightarrow> Inl (KeyError k) | Some v \<Rightarrow> Inr v)"

subsection \<open>Loading a state dict\<close>

text \<open>
  Modelled from the spec: \<open>model.load_state_dict(state_dict)\<close>, a method of the tensor
  library; of its body only the last lines appear in the notebook's traceback:
  \<^verbatim>\<open>
  if len(error_msgs) > 0:
      raise RuntimeError('Error(s) in loading state_dict for {}:\n\t{}'.format(
                         self.__class__.__name__, "\n\t".join(error_msgs)))
  return _IncompatibleKeys(missing_keys, unexpected_keys)
  \<close>
  The spec: load "attempts to copy each entry of the stored Parameter Set onto the
  corresponding entry of the new model's parameters", and fails "naming every offending
  entry, if any stored parameter's shape disagrees with the shape implied by the freshly
  constructed model"; an entry the target does not expect is to be an error as well,
  "rather than silently ignoring" it. The notebook's recorded error has one line per
  entry, \<open>size mismatch for K: copying a param with shape S from checkpoint, the shape in
  current model is S'\<close>, in the order of the model's own entries.

  A failed load is the error value, which carries the report (missing keys, unexpected
  keys, and \<open>(K, S, S')\<close> per size mismatch). What the target object holds after the
  exception is not represented.
\<close>

type_synonym load_msgs = "string list \<times> (string \<times> nat list \<times> nat list) list"

definition load_param :: "state_dict_t \<Rightarrow> string \<Rightarrow> tensor \<Rightarrow> tensor \<times> load_msgs" where
  "load_param sd key param =
     (case map_of sd key of
        None \<Rightarrow> (param, [key], [])
      | Some input_param \<Rightarrow>
          if shape input_param \<noteq> shape param
          then (param, [], [(key, shape input_param, shape param)])
          else (param\<lparr>data := data input_param\<rparr>, [], []))"

definition load_Linear :: "state_dict_t \<Rightarrow> string \<Rightarrow> Linear \<Rightarrow> Linear \<times> load_msgs" where
  "load_Linear sd prefix l =
     (case load_param sd (prefix @ ''weight'') (weight l) of (w, mw, ew) \<Rightarrow>
      case load_param sd (prefix @ ''bias'') (bias l) of (b, mb, eb) \<Rightarrow>
        (l\<lparr>weight := w, bias := b\<rparr>, mw @ mb, ew @ eb))"

fun load_ModuleList :: "state_dict_t \<Rightarrow> string \<Rightarrow> nat \<Rightarrow> Linear list \<Rightarrow> Linear list \<times> load_msgs" where
  "load_ModuleList sd prefix i [] = ([], [], [])"
| "load_ModuleList sd prefix i (l # ls) =
     (case load_Linear sd (prefix @ str_nat i @ ''.'') l of (l', m, e) \<Rightarrow>
      case load_ModuleList sd prefix (Suc i) ls of (ls', ms, es) \<Rightarrow>
        (l' # ls', m @ ms, e @ es))"

definition load_state_dict :: "network \<Rightarrow> state_dict_t \<Rightarrow> error + network" where
  "load_state_dict model sd =
     (case load_ModuleList sd ''hidden_layers.'' 0 (hidden_layers model) of (hs, mh, eh) \<Rightarrow>
      case load_Linear sd ''output.'' (output model) of (out, mo, eo) \<Rightarrow>
        let missing_keys = mh @ mo;
            unexpected_keys = filter (\<lambda>k. k \<notin> set (map fst (state_dict model))) (map fst sd);
            error_msgs = eh @ eo
        in if missing_keys = [] \<and> unexpected_keys = [] \<and> error_msgs = []
           then Inr \<lparr>hidden_layers = hs, output = out\<rparr>
           else Inl (RuntimeError missing_keys unexpected_keys error_msgs))"

subsection \<open>Loading a checkpoint\<close>

text \<open>
  An exception leaves the function at once: \<open>raise_or r f\<close> goes on with \<open>f\<close> on the
  value of \<open>r\<close>, unless \<open>r\<close> raised.
\<close>

definition raise_or :: "error + 'a \<Rightarrow> ('a \<Rightarrow> error + 'b) \<Rightarrow> error + 'b" where
  "raise_or r f = (case r of Inl e \<Rightarrow> Inl e | Inr x \<Rightarrow> f x)"

text \<open>
  The constructor and \<open>load_state_dict\<close> applied to values out of a dictionary: a
  value of the wrong kind is a \<open>TypeError\<close>.
\<close>

fun call_Network :: "pyval \<Rightarrow> pyval \<Rightarrow> pyval \<Rightarrow> initializer \<Rightarrow> error + network" where
  "call_Network (PyInt input_size) (PyInt output_size) (PyList hidden) init =
     Inr (Network input_size output_size hidden init)"
| "call_Network _ _ _ init = Inl TypeError"

fun call_load_state_dict :: "network \<Rightarrow> pyval \<Rightarrow> error + network" where
  "call_load_state_dict model (PyStateDict sd) = load_state_dict model sd"
| "call_load_state_dict model _ = Inl TypeError"

text \<open>
  \<^verbatim>\<open>
  def load_checkpoint(filepath):
      checkpoint = torch.load(filepath)
      model = fc_model.Network(checkpoint['input_size'],
                               checkpoint['output_size'],
                               checkpoint['hidden_layers'])
      model.load_state_dict(checkpoint['state_dict'])
      return model
  \<close>
  The three arguments are looked up in order, then the model is built, then the state
  dict is looked up and loaded. The local variable \<open>checkpoint\<close> is \<open>ckpt\<close> here.
\<close>

definition load_checkpoint :: "string \<Rightarrow> filesystem \<Rightarrow> initializer \<Rightarrow> error + network" where
  "load_checkpoint filepath fs init =
     raise_or (torch_load filepath fs) (\<lambda>ckpt.
     raise_or (getitem ckpt ''input_size'') (\<lambda>a.
     raise_or (getitem ckpt ''output_size'') (\<lambda>b.
     raise_or (getitem ckpt ''hidden_layers'') (\<lambda>c.
     raise_or (call_Network a b c init) (\<lambda>model.
     raise_or (getitem ckpt ''state_dict'') (\<lambda>d.
     call_load_state_dict model d))))))"

subsection \<open>The training loop\<close>

text \<open>
  The loop of the notebook "Training Neural Networks":
  \<^verbatim>\<open>
  for e in range(epochs):
      running_loss = 0
      for images, labels in trainloader:
          images = images.view(images.shape[0], -1)
          optimizer.zero_grad()
          output = model(images)
          loss = criterion(output, labels)
          loss.backward()
          optimizer.step()
          running_loss += loss.item()
  \<close>
  The state it works on is the model's parameters and the gradient stored with them
  (\<open>.grad\<close>, which the notebook prints as \<open>None\<close> before the first backward pass).
  The three library calls are taken as the notebook describes them: "when you do
  multiple backwards passes with the same parameters, the gradients are accumulated",
  \<open>optimizer.zero_grad()\<close> clears them, \<open>optimizer.step()\<close> updates the weights with
  the stored gradient. The forward pass, the criterion and the differentiation are one
  parameter, \<open>loss_grad p batch\<close>: the gradient of the batch's loss at the parameters
  \<open>p\<close>. The optimizer's rule is the parameter \<open>update\<close>. Gradients are values of
  any type; the addition of two gradients and the zero gradient are the parameters
  \<open>add\<close> and \<open>zero\<close>, of which no law is assumed: the code's gradients are float32
  tensors, whose addition rounds and is not associative. The running loss, which is only
  printed, is left out.
\<close>

record ('p, 'g) training_state =
  parameters :: 'p
  grad :: "'g option"

definition zero_grad :: "'g \<Rightarrow> ('p, 'g) training_state \<Rightarrow> ('p, 'g) training_state" where
  "zero_grad zero s = s\<lparr>grad := map_option (\<lambda>_. zero) (grad s)\<rparr>"

definition backward ::
  "('g \<Rightarrow> 'g \<Rightarrow> 'g) \<Rightarrow> ('p \<Rightarrow> 'b \<Rightarrow> 'g) \<Rightarrow> 'b \<Rightarrow> ('p, 'g) training_state
     \<Rightarrow> ('p, 'g) training_state" where
  "backward add loss_grad batch s =
     s\<lparr>grad := Some (case grad s of
                       None \<Rightarrow> loss_grad (parameters s) batch
                     | Some a \<Rightarrow> add a (loss_grad (parameters s) batch))\<rparr>"

definition step :: "('p \<Rightarrow> 'g \<Rightarrow> 'p) \<Rightarrow> ('p, 'g) training_state \<Rightarrow> ('p, 'g) training_state" where
  "step update s = (case grad s of None \<Rightarrow> s | Some g \<Rightarrow> s\<lparr>parameters := update (parameters s) g\<rparr>)"

definition training_pass ::
  "'g \<Rightarrow> ('g \<Rightarrow> 'g \<Rightarrow> 'g) \<Rightarrow> ('p \<Rightarrow> 'b \<Rightarrow> 'g) \<Rightarrow> ('p \<Rightarrow> 'g \<Rightarrow> 'p) \<Rightarrow> ('p, 'g) training_state \<Rightarrow> 'b
     \<Rightarrow> ('p, 'g) training_state" where
  "training_pass zero add loss_grad update s batch =
     step update (backward add loss_grad batch (zero_grad zero s))"

text \<open>The inner loop over the batches of one epoch, and the outer loop over the epochs;
  \<open>trainloader e\<close> is the batches the loader yields in epoch \<open>e\<close>.\<close>

definition train_epoch ::
  "'g \<Rightarrow> ('g \<Rightarrow> 'g \<Rightarrow> 'g) \<Rightarrow> ('p \<Rightarrow> 'b \<Rightarrow> 'g) \<Rightarrow> ('p \<Rightarrow> 'g \<Rightarrow> 'p) \<Rightarrow> ('p, 'g) training_state
     \<Rightarrow> 'b list \<Rightarrow> ('p, 'g) training_state" where
  "train_epoch zero add loss_grad update s batches =
     foldl (training_pass zero add loss_grad update) s batches"

definition train ::
  "'g \<Rightarrow> ('g \<Rightarrow> 'g \<Rightarrow> 'g) \<Rightarrow> ('p \<Rightarrow> 'b \<Rightarrow> 'g) \<Rightarrow> ('p \<Rightarrow> 'g \<Rightarrow> 'p) \<Rightarrow> (nat \<Rightarrow> 'b list) \<Rightarrow> nat
     \<Rightarrow> ('p, 'g) training_state \<Rightarrow> ('p, 'g) training_state" where
  "train zero add loss_grad update trainloader epochs s =
     foldl (\<lambda>s e. train_epoch zero add loss_grad update s (trainloader e)) s [0..<epochs]"

text \<open>
  The same pass and inner loop with the line \<open>optimizer.zero_grad()\<close> taken out, to
  say what the reset is for.
\<close>

definition training_pass_no_reset ::
  "('g \<Rightarrow> 'g \<Rightarrow> 'g) \<Rightarrow> ('p \<Rightarrow> 'b \<Rightarrow> 'g) \<Rightarrow> ('p \<Rightarrow> 'g \<Rightarrow> 'p) \<Rightarrow> ('p, 'g) training_state \<Rightarrow> 'b
     \<Rightarrow> ('p, 'g) training_state" where
  "training_pass_no_reset add loss_grad update s batch =
     step update (backward add loss_grad batch s)"

definition train_epoch_no_reset ::
  "('g \<Rightarrow> 'g \<Rightarrow> 'g) \<Rightarrow> ('p \<Rightarrow> 'b \<Rightarrow> 'g) \<Rightarrow> ('p \<Rightarrow> 'g \<Rightarrow> 'p) \<Rightarrow> ('p, 'g) training_state
     \<Rightarrow> 'b list \<Rightarrow> ('p, 'g) training_state" where
  "train_epoch_no_reset add loss_grad update s batches =
     foldl (training_pass_no_reset add loss_grad update) s batches"

text \<open>
  The gradients the backward passes of a run compute, one per batch, each at the
  parameters current when its pass runs; \<open>pass\<close> is the training pass in use.
\<close>

fun pass_gradients ::
  "('p \<Rightarrow> 'b \<Rightarrow> 'g) \<Rightarrow> (('p, 'g) training_state \<Rightarrow> 'b \<Rightarrow> ('p, 'g) training_state)
     \<Rightarrow> ('p, 'g) training_state \<Rightarrow> 'b list \<Rightarrow> 'g list" where
  "pass_gradients loss_grad pass s [] = []"
| "pass_gradients loss_grad pass s (b # bs) =
     loss_grad (parameters s) b # pass_gradients loss_grad pass (pass s b) bs"

subsection \<open>Notions of the specification\<close>

text \<open>
  A model's own architecture descriptor: the input dimension is what its first layer
  takes, the output dimension what its output layer gives, the hidden widths what its
  hidden layers give, in order.
\<close>

definition input_dim :: "network \<Rightarrow> nat" where
  "input_dim model = in_features (hd (hidden_layers model @ [output model]))"

definition output_dim :: "network \<Rightarrow> nat" where
  "output_dim model = out_features (output model)"

definition hidden_widths :: "network \<Rightarrow> nat list" where
  "hidden_widths model = map out_features (hidden_layers model)"

text \<open>The descriptor a checkpoint dictionary holds, read under the keys the code uses.\<close>

definition stored_descriptor :: "pydict \<Rightarrow> (pyval \<times> pyval \<times> pyval) option" where
  "stored_descriptor d =
     (case (map_of d ''input_size'', map_of d ''output_size'', map_of d ''hidden_layers'') of
        (Some a, Some b, Some c) \<Rightarrow> Some (a, b, c)
      | _ \<Rightarrow> None)"

text \<open>
  A model has the architecture of a descriptor when its layers, hidden ones first and the
  output layer last, take and give the descriptor's widths in a chain, and each weight
  and bias has the shape of its layer. A model keeps its architecture for life; training
  changes the elements of its tensors only.
\<close>

fun chain_arch :: "nat \<Rightarrow> nat list \<Rightarrow> Linear list \<Rightarrow> bool" where
  "chain_arch w [] [] = True"
| "chain_arch w (h # hs) (l # ls) =
     (in_features l = w \<and> out_features l = h \<and>
      shape (weight l) = [h, w] \<and> shape (bias l) = [h] \<and> chain_arch h hs ls)"
| "chain_arch w _ _ = False"

definition has_arch :: "nat \<Rightarrow> nat \<Rightarrow> nat list \<Rightarrow> network \<Rightarrow> bool" where
  "has_arch inp out hs model \<longleftrightarrow>
     chain_arch inp (hs @ [out]) (hidden_layers model @ [output model])"

definition same_arch :: "Linear \<Rightarrow> Linear \<Rightarrow> bool" where
  "same_arch l l' \<longleftrightarrow>
     in_features l = in_features l' \<and> out_features l = out_features l' \<and>
     shape (weight l) = shape (weight l') \<and> shape (bias l) = shape (bias l')"

text \<open>
  The shape invariant on a parameter set, for the widths \<open>width[0..k]\<close>: layer \<open>i\<close>
  (from 1) is the hidden layer \<open>i - 1\<close> while \<open>i < k\<close>, and the output layer for
  \<open>i = k\<close>.
\<close>

definition layer_prefix :: "nat \<Rightarrow> nat \<Rightarrow> string" where
  "layer_prefix k i =
     (if i < k then ''hidden_layers.'' @ str_nat (i - 1) @ ''.'' else ''output.'')"

definition shape_invariant :: "nat list \<Rightarrow> state_dict_t \<Rightarrow> bool" where
  "shape_invariant width sd \<longleftrightarrow>
     list_all (\<lambda>i.
        map_option shape (map_of sd (layer_prefix (length width - 1) i @ ''weight''))
          = Some [width ! i, width ! (i - 1)] \<and>
        map_option shape (map_of sd (layer_prefix (length width - 1) i @ ''bias''))
          = Some [width ! i])
       [1..<length width]"

text \<open>
  The entries a load finds at fault in a stored parameter set: an entry of the target
  model whose stored counterpart has another shape (with the stored shape and the
  model's), and an entry of the target with no stored counterpart.
\<close>

definition mismatch_of ::
  "state_dict_t \<Rightarrow> string \<times> tensor \<Rightarrow> (string \<times> nat list \<times> nat list) list" where
  "mismatch_of sd kp =
     (case map_of sd (fst kp) of
        None \<Rightarrow> []
      | Some t \<Rightarrow>
          if shape t \<noteq> shape (snd kp) then [(fst kp, shape t, shape (snd kp))] else [])"

definition missing_of :: "state_dict_t \<Rightarrow> string \<times> tensor \<Rightarrow> string list" where
  "missing_of sd kp = (case map_of sd (fst kp) of None \<Rightarrow> [fst kp] | Some t \<Rightarrow> [])"

subsection \<open>Sample inputs\<close>

text \<open>An initializer that fills with zeros, and a directory with no file in it.\<close>

definition zeros :: initializer where
  "zeros s = replicate (prod_list s) 0"

definition no_files :: filesystem where
  "no_files = Map.empty"

text \<open>A small network: two inputs, one hidden layer of three units, one output.\<close>

definition small_model :: network where
  "small_model = Network 2 1 [3] zeros"

text \<open>The network the notebook trains and saves first.\<close>

definition notebook_model :: network where
  "notebook_model = Network 784 10 [512, 256, 128] zeros"

text \<open>
  A training run on integers: the parameter is one number, a batch is one target, the
  loss is the squared distance, and the optimizer subtracts the gradient. The addition
  rounds as a float's does, in small: a sum of magnitude 64 or more keeps multiples of 8
  only. It is not associative: \<open>(64 + 4) + 4\<close> is 64 and \<open>64 + (4 + 4)\<close> is 72.
\<close>

definition rounding_add :: "int \<Rightarrow> int \<Rightarrow> int" where
  "rounding_add x y = (if \<bar>x + y\<bar> < 64 then x + y else 8 * ((x + y) div 8))"

definition sample_loss_grad :: "int \<Rightarrow> int \<Rightarrow> int" where
  "sample_loss_grad p x = 2 * (p - x)"

definition sample_update :: "int \<Rightarrow> int \<Rightarrow> int" where
  "sample_update p g = p - g"

definition fresh_state :: "(int, int) training_state" where
  "fresh_state = \<lparr>parameters = 0, grad = None\<rparr>"

text \<open>A state that still holds a gradient from before, and a loader that yields the
  same three batches in every epoch.\<close>

definition stale_state :: "(int, int) training_state" where
  "stale_state = \<lparr>parameters = 0, grad = Some 100\<rparr>"

definition sample_loader :: "nat \<Rightarrow> int list" where
  "sample_loader e = [1, 2, 3]"

section \<open>Properties\<close>

subsection \<open>Layer identifiers\<close>

lemma digit_char_inj: "d < 10 \<Longrightarrow> e < 10 \<Longrightarrow> digit_char d = digit_char e \<Longrightarrow> d = e"
proof -
  assume d: "d < 10" and e: "e < 10" and eq: "digit_char d = digit_char e"
  have D: "d \<in> {0,1,2,3,4,5,6,7,8,9}" using d by auto
  have E: "e \<in> {0,1,2,3,4,5,6,7,8,9}" using e by auto
  from D E eq show ?thesis
    by (auto simp: digit_char_def)
qed


lemma str_nat_not_Nil: "str_nat n \<noteq> []"
  by (subst str_nat.simps) simp


lemma str_nat_inj: "str_nat n = str_nat m \<Longrightarrow> n = m"
proof (induction n arbitrary: m rule: str_nat.induct)
  case (1 n)
  show ?case
  proof (cases "n < 10")
    case n: True
    show ?thesis
    proof (cases "m < 10")
      case True
      with n "1.prems" show ?thesis
        by (simp add: str_nat.simps [of n] str_nat.simps [of m] digit_char_inj)
    next
      case False
      with n "1.prems" str_nat_not_Nil [of "m div 10"] show ?thesis
        by (simp add: str_nat.simps [of n] str_nat.simps [of m])
    qed
  next
    case n: False
    show ?thesis
    proof (cases "m < 10")
      case True
      with n "1.prems" str_nat_not_Nil [of "n div 10"] show ?thesis
        by (simp add: str_nat.simps [of n] str_nat.simps [of m])
    next
      case False
      with n "1.prems" have a: "str_nat (n div 10) = str_nat (m div 10)"
        and b: "digit_char (n mod 10) = digit_char (m mod 10)"
        by (simp_all add: str_nat.simps [of n] str_nat.simps [of m])
      from "1.IH" [OF n a] have "n div 10 = m div 10" .
      moreover from b have "n mod 10 = m mod 10"
        by (intro digit_char_inj) simp_all
      ultimately show ?thesis
        by (metis div_mult_mod_eq)
    qed
  qed
qed

lemma str_nat_eq_iff [simp]: "str_nat n = str_nat m \<longleftrightarrow> n = m"
  using str_nat_inj by blast

lemma weight_ne_bias: "a @ ''.weight'' \<noteq> b @ ''.bias''"
proof
  assume "a @ ''.weight'' = b @ ''.bias''"
  then have "last (a @ ''.weight'') = last (b @ ''.bias'')" by simp
  then show False by simp
qed

lemma ModuleList_keys:
  "map fst (ModuleList_state p i ls) =
     concat (map (\<lambda>j. [p @ str_nat j @ ''.weight'', p @ str_nat j @ ''.bias'']) [i..<i + length ls])"
proof (induction ls arbitrary: i)
  case Nil
  show ?case by simp
next
  case (Cons l ls)
  have "i < i + length (l # ls)" by simp
  then have "[i..<i + length (l # ls)] = i # [Suc i..<i + length (l # ls)]"
    by (rule upt_conv_Cons)
  moreover have "i + length (l # ls) = Suc i + length ls" by simp
  ultimately have "[i..<i + length (l # ls)] = i # [Suc i..<Suc i + length ls]"
    by (simp only:)
  with Cons.IH [of "Suc i"] show ?case
    by (simp add: Linear_state_def)
qed

lemma state_dict_keys:
  "map fst (state_dict m) =
     concat (map (\<lambda>j. [''hidden_layers.'' @ str_nat j @ ''.weight'',
                         ''hidden_layers.'' @ str_nat j @ ''.bias''])
        [0..<length (hidden_layers m)])
     @ [''output.weight'', ''output.bias'']"
  using ModuleList_keys [of "''hidden_layers.''" 0 "hidden_layers m"]
  by (simp add: state_dict_def Linear_state_def)

lemma ModuleList_key_mem:
  "k \<in> set (map fst (ModuleList_state p i ls)) \<Longrightarrow>
     \<exists>j. i \<le> j \<and> (k = p @ str_nat j @ ''.weight'' \<or> k = p @ str_nat j @ ''.bias'')"
  by (auto simp: ModuleList_keys)

lemma ModuleList_distinct: "distinct (map fst (ModuleList_state p i ls))"
proof (induction ls arbitrary: i)
  case Nil
  show ?case by simp
next
  case (Cons l ls)
  have a: "p @ str_nat i @ ''.weight'' \<notin> set (map fst (ModuleList_state p (Suc i) ls))"
  proof
    assume "p @ str_nat i @ ''.weight'' \<in> set (map fst (ModuleList_state p (Suc i) ls))"
    from ModuleList_key_mem [OF this] obtain j where "Suc i \<le> j"
      and "p @ str_nat i @ ''.weight'' = p @ str_nat j @ ''.weight''
         \<or> p @ str_nat i @ ''.weight'' = p @ str_nat j @ ''.bias''" by blast
    then show False using weight_ne_bias [of "str_nat i" "str_nat j"] by auto
  qed
  have b: "p @ str_nat i @ ''.bias'' \<notin> set (map fst (ModuleList_state p (Suc i) ls))"
  proof
    assume "p @ str_nat i @ ''.bias'' \<in> set (map fst (ModuleList_state p (Suc i) ls))"
    from ModuleList_key_mem [OF this] obtain j where "Suc i \<le> j"
      and "p @ str_nat i @ ''.bias'' = p @ str_nat j @ ''.weight''
         \<or> p @ str_nat i @ ''.bias'' = p @ str_nat j @ ''.bias''" by blast
    then show False using weight_ne_bias [of "str_nat j" "str_nat i"] by auto
  qed
  from a b Cons.IH [of "Suc i"] show ?case
    by (simp add: Linear_state_def)
qed

lemma state_dict_distinct: "distinct (map fst (state_dict m))"
proof -
  have "''output.weight'' \<notin> set (map fst (ModuleList_state ''hidden_layers.'' 0 (hidden_layers m)))"
    using ModuleList_key_mem [of "''output.weight''" "''hidden_layers.''" 0 "hidden_layers m"] by auto
  moreover have "''output.bias'' \<notin> set (map fst (ModuleList_state ''hidden_layers.'' 0 (hidden_layers m)))"
    using ModuleList_key_mem [of "''output.bias''" "''hidden_layers.''" 0 "hidden_layers m"] by auto
  ultimately show ?thesis
    using ModuleList_distinct [of "''hidden_layers.''" 0 "hidden_layers m"]
    by (simp add: state_dict_def Linear_state_def)
qed

lemma state_dict_lookup:
  "(k, t) \<in> set (state_dict m) \<Longrightarrow> map_of (state_dict m) k = Some t"
  using state_dict_distinct by (simp add: map_of_eq_Some_iff)

subsection \<open>A load that finds every entry\<close>

lemma load_param_copy:
  "map_of sd key = Some t \<Longrightarrow> shape t = shape p \<Longrightarrow> load_param sd key p = (t, [], [])"
  by (simp add: load_param_def)

lemma load_Linear_copy:
  assumes "map_of sd (prefix @ ''weight'') = Some (weight l')"
    and "map_of sd (prefix @ ''bias'') = Some (bias l')"
    and "same_arch l l'"
  shows "load_Linear sd prefix l = (l', [], [])"
proof -
  from assms have "load_param sd (prefix @ ''weight'') (weight l) = (weight l', [], [])"
    by (intro load_param_copy) (simp_all add: same_arch_def)
  moreover from assms have "load_param sd (prefix @ ''bias'') (bias l) = (bias l', [], [])"
    by (intro load_param_copy) (simp_all add: same_arch_def)
  moreover from assms(3) have "l\<lparr>weight := weight l', bias := bias l'\<rparr> = l'"
    by (simp add: same_arch_def)
  ultimately show ?thesis
    by (simp add: load_Linear_def)
qed

lemma load_ModuleList_copy:
  assumes "list_all2 same_arch ls ms"
    and "\<And>k t. (k, t) \<in> set (ModuleList_state p i ms) \<Longrightarrow> map_of sd k = Some t"
  shows "load_ModuleList sd p i ls = (ms, [], [])"
  using assms
proof (induction ls ms arbitrary: i rule: list_all2_induct)
  case Nil
  show ?case by simp
next
  case (Cons l ls m ms)
  have "load_Linear sd (p @ str_nat i @ ''.'') l = (m, [], [])"
    using Cons.hyps(1) Cons.prems
    by (intro load_Linear_copy) (simp_all add: Linear_state_def)
  moreover have "load_ModuleList sd p (Suc i) ls = (ms, [], [])"
    using Cons.prems by (intro Cons.IH) simp
  ultimately show ?case by simp
qed

lemma load_state_dict_copy:
  assumes hid: "list_all2 same_arch (hidden_layers n) (hidden_layers m)"
    and out: "same_arch (output n) (output m)"
  shows "load_state_dict n (state_dict m) = Inr m"
proof -
  have look: "\<And>k t. (k, t) \<in> set (state_dict m) \<Longrightarrow> map_of (state_dict m) k = Some t"
    by (rule state_dict_lookup)
  have a: "load_ModuleList (state_dict m) ''hidden_layers.'' 0 (hidden_layers n)
      = (hidden_layers m, [], [])"
    using hid
  proof (rule load_ModuleList_copy)
    fix k t
    assume "(k, t) \<in> set (ModuleList_state ''hidden_layers.'' 0 (hidden_layers m))"
    then have "(k, t) \<in> set (state_dict m)" by (simp add: state_dict_def)
    then show "map_of (state_dict m) k = Some t" by (rule look)
  qed
  have "(''output.'' @ ''weight'', weight (output m)) \<in> set (state_dict m)"
    by (simp add: state_dict_def Linear_state_def)
  then have ow: "map_of (state_dict m) (''output.'' @ ''weight'') = Some (weight (output m))"
    by (rule look)
  have "(''output.'' @ ''bias'', bias (output m)) \<in> set (state_dict m)"
    by (simp add: state_dict_def Linear_state_def)
  then have ob: "map_of (state_dict m) (''output.'' @ ''bias'') = Some (bias (output m))"
    by (rule look)
  from ow ob have b: "load_Linear (state_dict m) ''output.'' (output n) = (output m, [], [])"
    using out by (rule load_Linear_copy)
  have "length (hidden_layers n) = length (hidden_layers m)"
    using hid by (rule list_all2_lengthD)
  then have "map fst (state_dict n) = map fst (state_dict m)"
    by (simp add: state_dict_keys)
  then have c: "filter (\<lambda>k. k \<notin> set (map fst (state_dict n))) (map fst (state_dict m)) = []"
    by (simp del: set_map)
  show ?thesis
    unfolding load_state_dict_def a b by (simp only: c Let_def prod.case append_Nil if_True simp_thms) simp
qed

lemma chain_arch_linear_chain: "chain_arch w hs (linear_chain w hs init)"
  by (induction hs arbitrary: w) (simp_all add: nn_Linear_def)

lemma linear_chain_snoc:
  "linear_chain w (hs @ [out]) init = linear_chain w hs init @ [nn_Linear (last (w # hs)) out init]"
  by (induction hs arbitrary: w) simp_all

lemma Network_has_arch: "has_arch inp out hs (Network inp out hs init)"
  using chain_arch_linear_chain [of inp "hs @ [out]" init]
  by (simp add: has_arch_def Network_def linear_chain_snoc)

lemma chain_arch_same: "chain_arch w hs ls \<Longrightarrow> chain_arch w hs ms \<Longrightarrow> list_all2 same_arch ls ms"
proof (induction w hs ls arbitrary: ms rule: chain_arch.induct)
  case (1 w)
  then show ?case by (cases ms) simp_all
next
  case (2 w h hs l ls)
  then show ?case by (cases ms) (simp_all add: same_arch_def)
qed simp_all

lemma chain_arch_out_features: "chain_arch w hs ls \<Longrightarrow> map out_features ls = hs"
  by (induction w hs ls rule: chain_arch.induct) simp_all

lemma has_arch_hidden:
  assumes "has_arch inp out hs m"
  shows "map out_features (hidden_layers m) = hs"
proof -
  from assms have "map out_features (hidden_layers m @ [output m]) = hs @ [out]"
    unfolding has_arch_def by (rule chain_arch_out_features)
  then show ?thesis by simp
qed

lemma has_arch_same:
  assumes "has_arch inp out hs n" and "has_arch inp out hs m"
  shows "list_all2 same_arch (hidden_layers n) (hidden_layers m) \<and> same_arch (output n) (output m)"
proof -
  from assms have "list_all2 same_arch (hidden_layers n @ [output n]) (hidden_layers m @ [output m])"
    unfolding has_arch_def by (rule chain_arch_same)
  moreover from assms have "length (hidden_layers n) = length (hidden_layers m)"
    by (metis has_arch_hidden length_map)
  ultimately show ?thesis
    by (simp add: list_all2_append)
qed

lemma load_saved:
  "load_checkpoint f (torch_save (checkpoint m) f fs) init =
     load_state_dict (Network 784 10 (map out_features (hidden_layers m)) init) (state_dict m)"
  by (simp add: load_checkpoint_def torch_save_def torch_load_def raise_or_def checkpoint_def
      getitem_def)

subsection \<open>A load that finds a fault\<close>

lemma load_param_msgs:
  "snd (load_param sd key p) = (missing_of sd (key, p), mismatch_of sd (key, p))"
  by (simp add: load_param_def missing_of_def mismatch_of_def split: option.split)

lemma load_Linear_msgs:
  "snd (load_Linear sd prefix l) =
     (concat (map (missing_of sd) (Linear_state prefix l)),
      concat (map (mismatch_of sd) (Linear_state prefix l)))"
proof -
  obtain w mw ew where w: "load_param sd (prefix @ ''weight'') (weight l) = (w, mw, ew)"
    by (cases "load_param sd (prefix @ ''weight'') (weight l)") auto
  obtain b mb eb where b: "load_param sd (prefix @ ''bias'') (bias l) = (b, mb, eb)"
    by (cases "load_param sd (prefix @ ''bias'') (bias l)") auto
  from w load_param_msgs [of sd "prefix @ ''weight''" "weight l"]
  have 1: "mw = missing_of sd (prefix @ ''weight'', weight l)"
    "ew = mismatch_of sd (prefix @ ''weight'', weight l)" by simp_all
  from b load_param_msgs [of sd "prefix @ ''bias''" "bias l"]
  have 2: "mb = missing_of sd (prefix @ ''bias'', bias l)"
    "eb = mismatch_of sd (prefix @ ''bias'', bias l)" by simp_all
  show ?thesis
    by (simp add: load_Linear_def w b 1 2 Linear_state_def)
qed

lemma load_ModuleList_msgs:
  "snd (load_ModuleList sd p i ls) =
     (concat (map (missing_of sd) (ModuleList_state p i ls)),
      concat (map (mismatch_of sd) (ModuleList_state p i ls)))"
proof (induction ls arbitrary: i)
  case Nil
  show ?case by simp
next
  case (Cons l ls)
  obtain l' m e where l: "load_Linear sd (p @ str_nat i @ ''.'') l = (l', m, e)"
    by (cases "load_Linear sd (p @ str_nat i @ ''.'') l") auto
  obtain ls' ms es where ls: "load_ModuleList sd p (Suc i) ls = (ls', ms, es)"
    by (cases "load_ModuleList sd p (Suc i) ls") auto
  from l load_Linear_msgs [of sd "p @ str_nat i @ ''.''" l]
  have 1: "m = concat (map (missing_of sd) (Linear_state (p @ str_nat i @ ''.'') l))"
    "e = concat (map (mismatch_of sd) (Linear_state (p @ str_nat i @ ''.'') l))" by simp_all
  from ls Cons.IH [of "Suc i"]
  have 2: "ms = concat (map (missing_of sd) (ModuleList_state p (Suc i) ls))"
    "es = concat (map (mismatch_of sd) (ModuleList_state p (Suc i) ls))" by simp_all
  show ?case
    by (simp add: l ls 1 2)
qed

lemma load_state_dict_raises:
  assumes "concat (map (mismatch_of sd) (state_dict m)) \<noteq> []"
  shows "load_state_dict m sd =
     Inl (RuntimeError (concat (map (missing_of sd) (state_dict m)))
            (filter (\<lambda>k. k \<notin> set (map fst (state_dict m))) (map fst sd))
            (concat (map (mismatch_of sd) (state_dict m))))"
proof -
  obtain hs mh eh where h:
    "load_ModuleList sd ''hidden_layers.'' 0 (hidden_layers m) = (hs, mh, eh)"
    by (cases "load_ModuleList sd ''hidden_layers.'' 0 (hidden_layers m)") auto
  obtain out mo eo where out: "load_Linear sd ''output.'' (output m) = (out, mo, eo)"
    by (cases "load_Linear sd ''output.'' (output m)") auto
  from h load_ModuleList_msgs [of sd "''hidden_layers.''" 0 "hidden_layers m"]
  have 1: "mh = concat (map (missing_of sd) (ModuleList_state ''hidden_layers.'' 0 (hidden_layers m)))"
    "eh = concat (map (mismatch_of sd) (ModuleList_state ''hidden_layers.'' 0 (hidden_layers m)))"
    by simp_all
  from out load_Linear_msgs [of sd "''output.''" "output m"]
  have 2: "mo = concat (map (missing_of sd) (Linear_state ''output.'' (output m)))"
    "eo = concat (map (mismatch_of sd) (Linear_state ''output.'' (output m)))"
    by simp_all
  have e: "eh @ eo = concat (map (mismatch_of sd) (state_dict m))"
    by (simp add: 1 2 state_dict_def)
  have k: "mh @ mo = concat (map (missing_of sd) (state_dict m))"
    by (simp add: 1 2 state_dict_def)
  from assms e have "eh @ eo \<noteq> []" by simp
  then show ?thesis
    unfolding load_state_dict_def h out prod.case Let_def e [symmetric] k [symmetric]
    by simp
qed

lemma mismatch_of_mem:
  "x \<in> set (mismatch_of sd (k, p)) \<longleftrightarrow>
     (\<exists>t. map_of sd k = Some t \<and> shape t \<noteq> shape p \<and> x = (k, shape t, shape p))"
proof (cases "map_of sd k")
  case None
  then show ?thesis by (simp add: mismatch_of_def)
next
  case (Some u)
  then show ?thesis by (auto simp: mismatch_of_def)
qed

lemma mismatch_mem:
  "x \<in> set (concat (map (mismatch_of sd) kps)) \<longleftrightarrow>
     (\<exists>k p t. (k, p) \<in> set kps \<and> map_of sd k = Some t \<and> shape t \<noteq> shape p
        \<and> x = (k, shape t, shape p))"
proof -
  have "x \<in> set (concat (map (mismatch_of sd) kps)) \<longleftrightarrow>
      (\<exists>kp \<in> set kps. x \<in> set (mismatch_of sd kp))"
    by auto
  also have "\<dots> \<longleftrightarrow> (\<exists>k p. (k, p) \<in> set kps \<and> x \<in> set (mismatch_of sd (k, p)))"
    by auto
  also have "\<dots> \<longleftrightarrow> (\<exists>k p t. (k, p) \<in> set kps \<and> map_of sd k = Some t \<and> shape t \<noteq> shape p
        \<and> x = (k, shape t, shape p))"
    unfolding mismatch_of_mem by blast
  finally show ?thesis .
qed

lemma mismatch_set:
  "set (concat (map (mismatch_of sd) kps)) =
     {(k, shape t, shape p) |k t p. (k, p) \<in> set kps \<and> map_of sd k = Some t \<and> shape t \<noteq> shape p}"
proof (rule set_eqI)
  fix x
  show "x \<in> set (concat (map (mismatch_of sd) kps)) \<longleftrightarrow>
    x \<in> {(k, shape t, shape p) |k t p. (k, p) \<in> set kps \<and> map_of sd k = Some t \<and> shape t \<noteq> shape p}"
    unfolding mismatch_mem by blast
qed

lemma has_arch3:
  assumes "has_arch inp out [h0, h1, h2] m"
  obtains l0 l1 l2 where "hidden_layers m = [l0, l1, l2]"
    and "shape (weight l0) = [h0, inp]" and "shape (bias l0) = [h0]"
    and "shape (weight l1) = [h1, h0]" and "shape (bias l1) = [h1]"
    and "shape (weight l2) = [h2, h1]" and "shape (bias l2) = [h2]"
    and "shape (weight (output m)) = [out, h2]" and "shape (bias (output m)) = [out]"
proof -
  from assms have "length (hidden_layers m) = 3"
    by (metis has_arch_hidden length_map length_Cons list.size(3) numeral_3_eq_3)
  then obtain l0 l1 l2 where ls: "hidden_layers m = [l0, l1, l2]"
    by (auto simp: numeral_3_eq_3 length_Suc_conv)
  from assms show thesis
    by (intro that [of l0 l1 l2]) (simp_all add: has_arch_def ls)
qed

text \<open>
  Claim C2. For every target model and every stored parameter set: if some entry of
  the model has a stored counterpart of another shape, \<open>load_state_dict\<close> raises, and
  the size mismatches of its one report are exactly the entries whose stored shape
  differs from the model's, each with the stored shape and the shape in the model: all
  of them, not the first only. (The error is the library's \<open>RuntimeError\<close>; its size
  mismatches are what the specification calls a ShapeMismatchError.)
\<close>

theorem load_state_dict_names_every_mismatch:
  assumes "(k, p) \<in> set (state_dict model)" and "map_of sd k = Some t" and "shape t \<noteq> shape p"
  shows "\<exists>missing unexpected msgs.
           load_state_dict model sd = Inl (RuntimeError missing unexpected msgs) \<and>
           set msgs = {(k', shape t', shape p') |k' t' p'.
                         (k', p') \<in> set (state_dict model) \<and> map_of sd k' = Some t' \<and> shape t' \<noteq> shape p'}"
proof -
  let ?msgs = "concat (map (mismatch_of sd) (state_dict model))"
  from assms have "(k, shape t, shape p) \<in> set ?msgs"
    unfolding mismatch_mem by blast
  then have "?msgs \<noteq> []"
    by (metis empty_iff list.set(1))
  from load_state_dict_raises [OF this] mismatch_set [of sd "state_dict model"]
  show ?thesis by blast
qed

text \<open>The notebook model's parameters loaded into the small model.\<close>

theorem load_state_dict_names_every_mismatch_witness:
  "\<exists>missing unexpected msgs.
     load_state_dict small_model (state_dict notebook_model)
       = Inl (RuntimeError missing unexpected msgs) \<and>
     (''output.bias'', [10], [1]) \<in> set msgs \<and> (''output.weight'', [10, 128], [1, 3]) \<in> set msgs"
proof -
  let ?w = "\<lparr>shape = [1, 3], data = zeros [1, 3]\<rparr>"
  let ?b = "\<lparr>shape = [1], data = zeros [1]\<rparr>"
  let ?sw = "\<lparr>shape = [10, 128], data = zeros [10, 128]\<rparr>"
  let ?sb = "\<lparr>shape = [10], data = zeros [10]\<rparr>"
  have w: "(''output.weight'', ?w) \<in> set (state_dict small_model)"
    and b: "(''output.bias'', ?b) \<in> set (state_dict small_model)"
    by (simp_all add: small_model_def state_dict_def Network_def Linear_state_def nn_Linear_def)
  have sw: "map_of (state_dict notebook_model) ''output.weight'' = Some ?sw"
    and sb: "map_of (state_dict notebook_model) ''output.bias'' = Some ?sb"
    by (simp_all add: notebook_model_def state_dict_def Network_def Linear_state_def nn_Linear_def
        str_nat.simps digit_char_def)
  have nw: "shape ?sw \<noteq> shape ?w" and nb: "shape ?sb \<noteq> shape ?b" by simp_all
  from load_state_dict_names_every_mismatch [OF b sb nb]
  obtain missing unexpected msgs where
    r: "load_state_dict small_model (state_dict notebook_model) = Inl (RuntimeError missing unexpected msgs)"
    and s: "set msgs = {(k', shape t', shape p') |k' t' p'.
        (k', p') \<in> set (state_dict small_model)
        \<and> map_of (state_dict notebook_model) k' = Some t' \<and> shape t' \<noteq> shape p'}"
    by blast
  from s b sb nb have "(''output.bias'', shape ?sb, shape ?b) \<in> set msgs" by blast
  moreover from s w sw nw have "(''output.weight'', shape ?sw, shape ?w) \<in> set msgs" by blast
  ultimately show ?thesis using r by auto
qed

text \<open>
  Claim C4. The parameters of any model of architecture 784, 10, [512, 256, 128],
  loaded into a fresh model built with 784, 10, [400, 200, 100], raise an error that
  names exactly seven tensors: weight and bias of the three hidden layers and the output
  weight, with the shapes the notebook records. The output bias, of shape (10,) on both
  sides, is not named.
\<close>

theorem load_into_other_hidden_sizes:
  assumes "has_arch 784 10 [512, 256, 128] saved"
  shows "load_state_dict (Network 784 10 [400, 200, 100] init) (state_dict saved)
     = Inl (RuntimeError [] []
         [(''hidden_layers.0.weight'', [512, 784], [400, 784]),
          (''hidden_layers.0.bias'', [512], [400]),
          (''hidden_layers.1.weight'', [256, 512], [200, 400]),
          (''hidden_layers.1.bias'', [256], [200]),
          (''hidden_layers.2.weight'', [128, 256], [100, 200]),
          (''hidden_layers.2.bias'', [128], [100]),
          (''output.weight'', [10, 128], [10, 100])])"
proof -
  from assms obtain l0 l1 l2 where ls: "hidden_layers saved = [l0, l1, l2]"
    and sh: "shape (weight l0) = [512, 784]" "shape (bias l0) = [512]"
      "shape (weight l1) = [256, 512]" "shape (bias l1) = [256]"
      "shape (weight l2) = [128, 256]" "shape (bias l2) = [128]"
      "shape (weight (output saved)) = [10, 128]" "shape (bias (output saved)) = [10]"
    by (rule has_arch3)
  show ?thesis
    by (simp add: load_state_dict_def load_Linear_def load_param_def state_dict_def ls sh
        Network_def Linear_state_def nn_Linear_def str_nat.simps digit_char_def)
qed

text \<open>The notebook's own run of it.\<close>

theorem load_into_other_hidden_sizes_witness:
  "has_arch 784 10 [512, 256, 128] notebook_model \<and>
   load_state_dict (Network 784 10 [400, 200, 100] zeros) (state_dict notebook_model)
     = Inl (RuntimeError [] []
         [(''hidden_layers.0.weight'', [512, 784], [400, 784]),
          (''hidden_layers.0.bias'', [512], [400]),
          (''hidden_layers.1.weight'', [256, 512], [200, 400]),
          (''hidden_layers.1.bias'', [256], [200]),
          (''hidden_layers.2.weight'', [128, 256], [100, 200]),
          (''hidden_layers.2.bias'', [128], [100]),
          (''output.weight'', [10, 128], [10, 100])])"
proof -
  have h: "has_arch 784 10 [512, 256, 128] notebook_model"
    by (simp add: has_arch_def notebook_model_def Network_def nn_Linear_def)
  from load_into_other_hidden_sizes [OF h, of zeros] h show ?thesis by simp
qed

subsection \<open>Saving, then loading\<close>

text \<open>
  Claim C1, as the code has it. The checkpoint cell writes the literals 784 and 10 as
  the input and output size, whatever the model. For every model whose architecture is
  784 inputs, 10 outputs and any hidden widths, loading the checkpoint saved from it, at
  any path, on any file system and whatever the fresh model was filled with, returns a
  model whose parameters are those of the saved model, entry for entry and bit for bit
  (the returned model is the saved one).
\<close>

theorem load_checkpoint_roundtrip:
  assumes "has_arch 784 10 hs model"
  shows "\<exists>loaded. load_checkpoint f (torch_save (checkpoint model) f fs) init = Inr loaded
           \<and> state_dict loaded = state_dict model \<and> loaded = model"
proof -
  from assms have hs: "map out_features (hidden_layers model) = hs"
    by (rule has_arch_hidden)
  have "has_arch 784 10 hs (Network 784 10 hs init)"
    by (rule Network_has_arch)
  from has_arch_same [OF this assms]
  have "load_state_dict (Network 784 10 hs init) (state_dict model) = Inr model"
    by (intro load_state_dict_copy) simp_all
  then show ?thesis
    by (simp add: load_saved hs)
qed

text \<open>The notebook's own model, saved to and loaded from \<open>checkpoint.pth\<close>.\<close>

theorem load_checkpoint_roundtrip_witness:
  "has_arch 784 10 [512, 256, 128] notebook_model \<and>
   (\<exists>loaded. load_checkpoint ''checkpoint.pth''
        (torch_save (checkpoint notebook_model) ''checkpoint.pth'' no_files) zeros = Inr loaded
      \<and> state_dict loaded = state_dict notebook_model \<and> loaded = notebook_model)"
proof -
  have h: "has_arch 784 10 [512, 256, 128] notebook_model"
    by (simp add: has_arch_def notebook_model_def Network_def nn_Linear_def)
  from load_checkpoint_roundtrip [OF h] h show ?thesis by blast
qed

text \<open>
  Claim C1 as stated, for every model, fails: the checkpoint of a model with two inputs
  and one output says 784 and 10, the model rebuilt from it has other shapes, and the
  load raises.
\<close>

theorem load_checkpoint_other_input_size:
  "load_checkpoint ''checkpoint.pth''
     (torch_save (checkpoint small_model) ''checkpoint.pth'' no_files) zeros
   = Inl (RuntimeError [] []
       [(''hidden_layers.0.weight'', [3, 2], [3, 784]),
        (''output.weight'', [1, 3], [10, 3]),
        (''output.bias'', [1], [10])])"
  by (simp add: load_saved small_model_def load_state_dict_def load_Linear_def load_param_def
      state_dict_def Network_def Linear_state_def nn_Linear_def str_nat.simps digit_char_def)

subsection \<open>The stored descriptor\<close>

text \<open>
  Claim C5, as the code has it. For every model, the descriptor in its checkpoint is
  input size 784, output size 10 and the model's own hidden widths in order; it is the
  model's own descriptor exactly when the model's input dimension is 784 and its output
  dimension is 10.
\<close>

theorem checkpoint_descriptor:
  "stored_descriptor (checkpoint model) = Some (PyInt 784, PyInt 10, PyList (hidden_widths model))
   \<and> (stored_descriptor (checkpoint model)
        = Some (PyInt (input_dim model), PyInt (output_dim model), PyList (hidden_widths model))
      \<longleftrightarrow> input_dim model = 784 \<and> output_dim model = 10)"
  by (auto simp add: stored_descriptor_def checkpoint_def hidden_widths_def)

text \<open>
  Claim C5 as stated, for every model, fails on a model with two inputs and one output.
\<close>

theorem checkpoint_descriptor_small_model:
  "stored_descriptor (checkpoint small_model)
     \<noteq> Some (PyInt (input_dim small_model), PyInt (output_dim small_model),
          PyList (hidden_widths small_model))"
  by (simp add: stored_descriptor_def checkpoint_def hidden_widths_def input_dim_def output_dim_def
      small_model_def Network_def nn_Linear_def)

subsection \<open>The layout of the record\<close>

text \<open>
  Claim C6, as the code has it. Every checkpoint has exactly the four keys
  \<open>input_size\<close>, \<open>output_size\<close>, \<open>hidden_layers\<close> and \<open>state_dict\<close>, in this order:
  two integers, a list of integers, and a state dict from layer identifiers to tensors.
  \<open>load_checkpoint\<close> reads a stored record under these four keys: a record that has
  them is loaded from their values, and one with no \<open>hidden_layers\<close> key is refused
  with a \<open>KeyError\<close> for it.
\<close>

theorem checkpoint_keys:
  "map fst (checkpoint model) = [''input_size'', ''output_size'', ''hidden_layers'', ''state_dict'']
   \<and> map_of (checkpoint model) ''input_size'' = Some (PyInt 784)
   \<and> map_of (checkpoint model) ''output_size'' = Some (PyInt 10)
   \<and> map_of (checkpoint model) ''hidden_layers'' = Some (PyList (map out_features (hidden_layers model)))
   \<and> map_of (checkpoint model) ''state_dict'' = Some (PyStateDict (state_dict model))
   \<and> (map_of d ''input_size'' = Some (PyInt a) \<and> map_of d ''output_size'' = Some (PyInt b)
        \<and> map_of d ''hidden_layers'' = Some (PyList c) \<and> map_of d ''state_dict'' = Some (PyStateDict sd)
      \<longrightarrow> load_checkpoint f (torch_save d f fs) init = load_state_dict (Network a b c init) sd)
   \<and> (map_of d ''hidden_layers'' = None \<and> map_of d ''input_size'' = Some x \<and> map_of d ''output_size'' = Some y
      \<longrightarrow> load_checkpoint f (torch_save d f fs) init = Inl (KeyError ''hidden_layers''))"
  by (simp add: checkpoint_def load_checkpoint_def torch_save_def torch_load_def raise_or_def getitem_def)

text \<open>
  A record laid out with the key \<open>hidden_sizes\<close> is refused; the same record under
  \<open>hidden_layers\<close> is loaded.
\<close>

theorem checkpoint_keys_witness:
  "load_checkpoint ''checkpoint.pth''
     (torch_save [(''input_size'', PyInt 784), (''output_size'', PyInt 10),
        (''hidden_sizes'', PyList [512, 256, 128]),
        (''state_dict'', PyStateDict (state_dict notebook_model))] ''checkpoint.pth'' no_files) zeros
     = Inl (KeyError ''hidden_layers'')
   \<and> load_checkpoint ''checkpoint.pth''
     (torch_save [(''input_size'', PyInt 784), (''output_size'', PyInt 10),
        (''hidden_layers'', PyList [512, 256, 128]),
        (''state_dict'', PyStateDict (state_dict notebook_model))] ''checkpoint.pth'' no_files) zeros
     = load_state_dict (Network 784 10 [512, 256, 128] zeros) (state_dict notebook_model)"
proof -
  let ?spec = "[(''input_size'', PyInt 784), (''output_size'', PyInt 10),
        (''hidden_sizes'', PyList [512, 256, 128]),
        (''state_dict'', PyStateDict (state_dict notebook_model))]"
  let ?code = "[(''input_size'', PyInt 784), (''output_size'', PyInt 10),
        (''hidden_layers'', PyList [512, 256, 128]),
        (''state_dict'', PyStateDict (state_dict notebook_model))]"
  have a: "map_of ?spec ''hidden_layers'' = None \<and> map_of ?spec ''input_size'' = Some (PyInt 784)
      \<and> map_of ?spec ''output_size'' = Some (PyInt 10)" by simp
  have b: "map_of ?code ''input_size'' = Some (PyInt 784) \<and> map_of ?code ''output_size'' = Some (PyInt 10)
        \<and> map_of ?code ''hidden_layers'' = Some (PyList [512, 256, 128])
        \<and> map_of ?code ''state_dict'' = Some (PyStateDict (state_dict notebook_model))" by simp
  from a checkpoint_keys [of notebook_model ?spec 0 0 "[]" "[]" "''checkpoint.pth''" no_files zeros "PyInt 784" "PyInt 10"]
  have 1: "load_checkpoint ''checkpoint.pth'' (torch_save ?spec ''checkpoint.pth'' no_files) zeros
     = Inl (KeyError ''hidden_layers'')" by blast
  from b checkpoint_keys [of notebook_model ?code 784 10 "[512, 256, 128]" "state_dict notebook_model" "''checkpoint.pth''" no_files zeros "PyInt 784" "PyInt 10"]
  have 2: "load_checkpoint ''checkpoint.pth'' (torch_save ?code ''checkpoint.pth'' no_files) zeros
     = load_state_dict (Network 784 10 [512, 256, 128] zeros) (state_dict notebook_model)" by blast
  from 1 2 show ?thesis by blast
qed

text \<open>
  Claim C6 as stated fails: the third key of the notebook model's checkpoint is
  \<open>hidden_layers\<close>, and the record has no key \<open>hidden_sizes\<close>.
\<close>

theorem checkpoint_keys_not_hidden_sizes:
  "set (map fst (checkpoint notebook_model))
     \<noteq> {''input_size'', ''output_size'', ''hidden_sizes'', ''state_dict''}
   \<and> getitem (checkpoint notebook_model) ''hidden_sizes'' = Inl (KeyError ''hidden_sizes'')"
proof -
  have "''hidden_layers'' \<in> set (map fst (checkpoint notebook_model))"
    by (simp add: checkpoint_def)
  moreover have "''hidden_layers'' \<notin> {''input_size'', ''output_size'', ''hidden_sizes'', ''state_dict''}"
    by simp
  ultimately have "set (map fst (checkpoint notebook_model))
     \<noteq> {''input_size'', ''output_size'', ''hidden_sizes'', ''state_dict''}"
    by metis
  moreover have "getitem (checkpoint notebook_model) ''hidden_sizes'' = Inl (KeyError ''hidden_sizes'')"
    by (simp add: checkpoint_def getitem_def)
  ultimately show ?thesis by simp
qed

subsection \<open>Two destinations\<close>









subsection \<open>The identifiers of a network's parameters\<close>







subsection \<open>The shape invariant\<close>

lemma chain_arch_length: "chain_arch w ws ls \<Longrightarrow> length ls = length ws"
  by (induction w ws ls rule: chain_arch.induct) simp_all

lemma chain_arch_nth:
  "chain_arch w ws ls \<Longrightarrow> j < length ws \<Longrightarrow>
     shape (weight (ls ! j)) = [(w # ws) ! Suc j, (w # ws) ! j] \<and>
     shape (bias (ls ! j)) = [(w # ws) ! Suc j]"
proof (induction w ws ls arbitrary: j rule: chain_arch.induct)
  case (2 w h hs l ls)
  show ?case
  proof (cases j)
    case 0
    with "2.prems" show ?thesis by simp
  next
    case (Suc j')
    with "2.prems" have "chain_arch h hs ls" and "j' < length hs" by simp_all
    from "2.IH" [OF this] Suc show ?thesis by simp
  qed
qed simp_all

lemma ModuleList_state_mem:
  "j < length ls \<Longrightarrow>
     (p @ str_nat (i + j) @ ''.weight'', weight (ls ! j)) \<in> set (ModuleList_state p i ls) \<and>
     (p @ str_nat (i + j) @ ''.bias'', bias (ls ! j)) \<in> set (ModuleList_state p i ls)"
proof (induction ls arbitrary: i j)
  case Nil
  then show ?case by simp
next
  case (Cons l ls)
  show ?case
  proof (cases j)
    case 0
    then show ?thesis by (simp add: Linear_state_def)
  next
    case (Suc j')
    with Cons.prems have "j' < length ls" by simp
    from Cons.IH [OF this, of "Suc i"] Suc show ?thesis by simp
  qed
qed

lemma hidden_lookup:
  assumes "j < length (hidden_layers m)"
  shows "map_of (state_dict m) (''hidden_layers.'' @ str_nat j @ ''.weight'')
           = Some (weight (hidden_layers m ! j))"
    and "map_of (state_dict m) (''hidden_layers.'' @ str_nat j @ ''.bias'')
           = Some (bias (hidden_layers m ! j))"
proof -
  from ModuleList_state_mem [OF assms, of "''hidden_layers.''" 0]
  have "(''hidden_layers.'' @ str_nat j @ ''.weight'', weight (hidden_layers m ! j)) \<in> set (state_dict m)"
    and "(''hidden_layers.'' @ str_nat j @ ''.bias'', bias (hidden_layers m ! j)) \<in> set (state_dict m)"
    by (simp_all add: state_dict_def)
  then show "map_of (state_dict m) (''hidden_layers.'' @ str_nat j @ ''.weight'')
           = Some (weight (hidden_layers m ! j))"
    and "map_of (state_dict m) (''hidden_layers.'' @ str_nat j @ ''.bias'')
           = Some (bias (hidden_layers m ! j))"
    by (simp_all add: state_dict_lookup)
qed

lemma output_lookup:
  "map_of (state_dict m) ''output.weight'' = Some (weight (output m))"
  "map_of (state_dict m) ''output.bias'' = Some (bias (output m))"
proof -
  have "(''output.weight'', weight (output m)) \<in> set (state_dict m)"
    and "(''output.bias'', bias (output m)) \<in> set (state_dict m)"
    by (simp_all add: state_dict_def Linear_state_def)
  then show "map_of (state_dict m) ''output.weight'' = Some (weight (output m))"
    and "map_of (state_dict m) ''output.bias'' = Some (bias (output m))"
    by (simp_all add: state_dict_lookup)
qed

lemma has_arch_shape_invariant:
  assumes "has_arch inp out hs m"
  shows "shape_invariant (inp # hs @ [out]) (state_dict m)"
proof -
  let ?ls = "hidden_layers m @ [output m]"
  let ?W = "inp # hs @ [out]"
  from assms have ch: "chain_arch inp (hs @ [out]) ?ls"
    by (simp add: has_arch_def)
  from chain_arch_length [OF ch] have len: "length (hidden_layers m) = length hs"
    by simp
  have "map_option shape (map_of (state_dict m) (layer_prefix (length ?W - 1) i @ ''weight''))
          = Some [?W ! i, ?W ! (i - 1)] \<and>
        map_option shape (map_of (state_dict m) (layer_prefix (length ?W - 1) i @ ''bias''))
          = Some [?W ! i]"
    if i: "i \<in> set [1..<length ?W]" for i
  proof -
    from i have "i \<in> {1..<length ?W}" by (simp only: set_upt)
    then have "1 \<le> i" and "i < length ?W" by simp_all
    then obtain j where j: "i = Suc j" and jl: "j < length (hs @ [out])"
      by (cases i) simp_all
    from chain_arch_nth [OF ch jl]
    have sh: "shape (weight (?ls ! j)) = [?W ! i, ?W ! (i - 1)]" "shape (bias (?ls ! j)) = [?W ! i]"
      by (simp_all add: j)
    show ?thesis
    proof (cases "j < length hs")
      case True
      then have "j < length (hidden_layers m)" by (simp add: len)
      from hidden_lookup [OF this] sh True show ?thesis
        by (simp add: layer_prefix_def j nth_append len)
    next
      case False
      with jl have "j = length hs" by simp
      with sh output_lookup [of m] show ?thesis
        by (simp add: layer_prefix_def j nth_append len)
    qed
  qed
  then show ?thesis
    by (simp only: shape_invariant_def list_all_iff) blast
qed

lemma load_param_shape: "shape (fst (load_param sd key p)) = shape p"
  by (simp add: load_param_def split: option.split)

lemma load_Linear_same: "same_arch l (fst (load_Linear sd prefix l))"
proof -
  obtain w mw ew where w: "load_param sd (prefix @ ''weight'') (weight l) = (w, mw, ew)"
    by (cases "load_param sd (prefix @ ''weight'') (weight l)") auto
  obtain b mb eb where b: "load_param sd (prefix @ ''bias'') (bias l) = (b, mb, eb)"
    by (cases "load_param sd (prefix @ ''bias'') (bias l)") auto
  from w load_param_shape [of sd "prefix @ ''weight''" "weight l"] have "shape w = shape (weight l)"
    by simp
  moreover from b load_param_shape [of sd "prefix @ ''bias''" "bias l"] have "shape b = shape (bias l)"
    by simp
  ultimately show ?thesis
    by (simp add: load_Linear_def w b same_arch_def)
qed

lemma load_ModuleList_same: "list_all2 same_arch ls (fst (load_ModuleList sd p i ls))"
proof (induction ls arbitrary: i)
  case Nil
  show ?case by simp
next
  case (Cons l ls)
  obtain l' m e where l: "load_Linear sd (p @ str_nat i @ ''.'') l = (l', m, e)"
    by (cases "load_Linear sd (p @ str_nat i @ ''.'') l") auto
  obtain ls' ms es where ls: "load_ModuleList sd p (Suc i) ls = (ls', ms, es)"
    by (cases "load_ModuleList sd p (Suc i) ls") auto
  from l load_Linear_same [of l sd "p @ str_nat i @ ''.''"] have "same_arch l l'" by simp
  moreover from ls Cons.IH [of "Suc i"] have "list_all2 same_arch ls ls'" by simp
  ultimately show ?case by (simp add: l ls)
qed

lemma chain_arch_cong:
  "chain_arch w ws ls \<Longrightarrow> list_all2 same_arch ls ls' \<Longrightarrow> chain_arch w ws ls'"
proof (induction w ws ls arbitrary: ls' rule: chain_arch.induct)
  case (1 w)
  then show ?case by simp
next
  case (2 w h hs l ls)
  from "2.prems"(2) obtain k ks where ls': "ls' = k # ks" and k: "same_arch l k"
    and ks: "list_all2 same_arch ls ks"
    by (auto simp: list_all2_Cons1)
  from "2.prems"(1) have a: "in_features l = w" "out_features l = h"
    "shape (weight l) = [h, w]" "shape (bias l) = [h]" "chain_arch h hs ls"
    by simp_all
  from k a have b: "in_features k = w" "out_features k = h"
    "shape (weight k) = [h, w]" "shape (bias k) = [h]"
    by (auto simp: same_arch_def)
  from "2.IH" [OF a(5) ks] b show ?case
    by (simp add: ls')
qed simp_all

lemma load_state_dict_has_arch:
  assumes "has_arch inp out hs m" and "load_state_dict m sd = Inr loaded"
  shows "has_arch inp out hs loaded"
proof -
  obtain hl mh eh where h:
    "load_ModuleList sd ''hidden_layers.'' 0 (hidden_layers m) = (hl, mh, eh)"
    by (cases "load_ModuleList sd ''hidden_layers.'' 0 (hidden_layers m)") auto
  obtain ol mo eo where ol: "load_Linear sd ''output.'' (output m) = (ol, mo, eo)"
    by (cases "load_Linear sd ''output.'' (output m)") auto
  from assms(2) have loaded: "loaded = \<lparr>hidden_layers = hl, output = ol\<rparr>"
    by (simp add: load_state_dict_def h ol Let_def split: if_splits)
  from h load_ModuleList_same [of "hidden_layers m" sd "''hidden_layers.''" 0]
  have "list_all2 same_arch (hidden_layers m) hl" by simp
  moreover from ol load_Linear_same [of "output m" sd "''output.''"]
  have "same_arch (output m) ol" by simp
  ultimately have "list_all2 same_arch (hidden_layers m @ [output m]) (hl @ [ol])"
    by (simp add: list_all2_appendI)
  with assms(1) show ?thesis
    unfolding has_arch_def loaded by (simp add: chain_arch_cong)
qed

text \<open>
  Claim C8. A model built from the widths \<open>width[0..k]\<close> (input, hidden widths,
  output) has the architecture of its descriptor, and for every layer \<open>i \<ge> 1\<close> its
  weight has shape \<open>(width[i], width[i-1])\<close> and its bias shape \<open>(width[i],)\<close>. The
  same holds of the parameter set of every model with that architecture, of the
  parameter set stored in a checkpoint made from it, and of the model after a successful
  \<open>load_state_dict\<close>, which keeps the architecture.
\<close>

theorem layer_shapes:
  "has_arch inp out hs (Network inp out hs init)
   \<and> shape_invariant (inp # hs @ [out]) (state_dict (Network inp out hs init))
   \<and> (has_arch inp out hs model \<longrightarrow>
        shape_invariant (inp # hs @ [out]) (state_dict model)
      \<and> getitem (checkpoint model) ''state_dict'' = Inr (PyStateDict (state_dict model))
      \<and> (load_state_dict model sd = Inr loaded \<longrightarrow>
           has_arch inp out hs loaded \<and> shape_invariant (inp # hs @ [out]) (state_dict loaded)))"
proof -
  have "has_arch inp out hs (Network inp out hs init)"
    by (rule Network_has_arch)
  moreover from this have "shape_invariant (inp # hs @ [out]) (state_dict (Network inp out hs init))"
    by (rule has_arch_shape_invariant)
  moreover have "getitem (checkpoint model) ''state_dict'' = Inr (PyStateDict (state_dict model))"
    by (simp add: getitem_def checkpoint_def)
  moreover have "has_arch inp out hs loaded \<and> shape_invariant (inp # hs @ [out]) (state_dict loaded)"
    if "has_arch inp out hs model" and "load_state_dict model sd = Inr loaded"
    using load_state_dict_has_arch [OF that] has_arch_shape_invariant by blast
  ultimately show ?thesis
    using has_arch_shape_invariant [of inp out hs model] by blast
qed

text \<open>The small model, with widths 2, 3, 1.\<close>

theorem layer_shapes_witness:
  "has_arch 2 1 [3] small_model
   \<and> load_state_dict small_model (state_dict small_model) = Inr small_model
   \<and> shape_invariant [2, 3, 1] (state_dict small_model)
   \<and> map_option shape (map_of (state_dict small_model) ''hidden_layers.0.weight'') = Some [3, 2]
   \<and> map_option shape (map_of (state_dict small_model) ''hidden_layers.0.bias'') = Some [3]
   \<and> map_option shape (map_of (state_dict small_model) ''output.weight'') = Some [1, 3]
   \<and> map_option shape (map_of (state_dict small_model) ''output.bias'') = Some [1]"
proof -
  have h: "has_arch 2 1 [3] small_model"
    by (simp add: has_arch_def small_model_def Network_def nn_Linear_def)
  have l: "load_state_dict small_model (state_dict small_model) = Inr small_model"
    by (simp add: small_model_def load_state_dict_def load_Linear_def load_param_def
      state_dict_def Network_def Linear_state_def nn_Linear_def str_nat.simps digit_char_def)
  from layer_shapes [of 2 1 "[3]" zeros small_model "state_dict small_model" small_model] h l
  have s: "shape_invariant [2, 3, 1] (state_dict small_model)" by simp
  have u: "[1..<3] = [1, 2 :: nat]" by (simp add: upt_rec)
  from s have "map_option shape (map_of (state_dict small_model) ''hidden_layers.0.weight'') = Some [3, 2]
   \<and> map_option shape (map_of (state_dict small_model) ''hidden_layers.0.bias'') = Some [3]
   \<and> map_option shape (map_of (state_dict small_model) ''output.weight'') = Some [1, 3]
   \<and> map_option shape (map_of (state_dict small_model) ''output.bias'') = Some [1]"
    by (simp add: shape_invariant_def layer_prefix_def u str_nat.simps digit_char_def)
  with h l s show ?thesis by simp
qed

subsection \<open>The gradient reset in the training loop\<close>

lemma zero_grad_backward:
  "grad (backward add L b (zero_grad zero s)) =
     Some (case grad s of None \<Rightarrow> L (parameters s) b | Some a \<Rightarrow> add zero (L (parameters s) b))"
  by (cases "grad s") (simp_all add: backward_def zero_grad_def)

lemma training_pass_eq:
  assumes "add zero (L (parameters s) b) = L (parameters s) b"
  shows "training_pass zero add L U s b =
     s\<lparr>parameters := U (parameters s) (L (parameters s) b), grad := Some (L (parameters s) b)\<rparr>"
  using assms
  by (cases "grad s") (simp_all add: training_pass_def step_def backward_def zero_grad_def)

lemma train_epoch_snoc:
  "train_epoch zero add L U s (bs @ [b]) = training_pass zero add L U (train_epoch zero add L U s bs) b"
  by (simp add: train_epoch_def)

lemma train_Suc:
  "train zero add L U loader (Suc e) s
     = train_epoch zero add L U (train zero add L U loader e s) (loader e)"
  by (simp add: train_def)

lemma no_reset_accumulates:
  "grad s = Some a \<Longrightarrow>
     grad (train_epoch_no_reset add L U s bs)
       = Some (foldl add a (pass_gradients L (training_pass_no_reset add L U) s bs))"
proof (induction bs arbitrary: s a)
  case Nil
  then show ?case by (simp add: train_epoch_no_reset_def)
next
  case (Cons b bs)
  let ?s = "training_pass_no_reset add L U s b"
  from Cons.prems have g: "grad ?s = Some (add a (L (parameters s) b))"
    by (simp add: training_pass_no_reset_def step_def backward_def)
  have "train_epoch_no_reset add L U s (b # bs) = train_epoch_no_reset add L U ?s bs"
    by (simp add: train_epoch_no_reset_def)
  with Cons.IH [OF g] show ?case
    by simp
qed

lemma no_reset_from_None:
  assumes "grad s = None"
  shows "grad (train_epoch_no_reset add L U s (b # bs))
       = Some (foldl add (L (parameters s) b)
           (pass_gradients L (training_pass_no_reset add L U) (training_pass_no_reset add L U s b) bs))"
proof -
  let ?s = "training_pass_no_reset add L U s b"
  from assms have g: "grad ?s = Some (L (parameters s) b)"
    by (simp add: training_pass_no_reset_def step_def backward_def)
  have "train_epoch_no_reset add L U s (b # bs) = train_epoch_no_reset add L U ?s bs"
    by (simp add: train_epoch_no_reset_def)
  with no_reset_accumulates [OF g] show ?thesis
    by simp
qed

text \<open>
  Claim C9. Gradients accumulate across backward passes. With \<open>optimizer.zero_grad()\<close>
  at the start of the pass, the gradient held when \<open>optimizer.step()\<close> runs depends on
  the current batch alone, whatever gradient was stored before: it is the batch's
  gradient, added to zero if a gradient was stored. Where adding to zero changes nothing
  (as it does not for floats, up to the sign of a zero), it equals the gradient of the
  current batch's loss, the step updates the parameters with it, and so it is in every
  pass of an epoch and of the whole run. Without the reset, a backward pass adds to what
  is stored, and the gradient held at the update is the sum of the gradients of all
  backward passes so far, added up one after the other in the order of the passes (on
  top of the gradient stored at the start, if there was one). No law of the addition is
  used for that: it need not be associative.
\<close>

theorem zero_grad_isolates_batch:
  "grad (backward add L b (zero_grad zero s))
     = Some (case grad s of None \<Rightarrow> L (parameters s) b | Some a \<Rightarrow> add zero (L (parameters s) b))
   \<and> (add zero (L (parameters s) b) = L (parameters s) b \<longrightarrow>
        grad (backward add L b (zero_grad zero s)) = Some (L (parameters s) b)
      \<and> parameters (training_pass zero add L U s b) = U (parameters s) (L (parameters s) b))
   \<and> (add zero (L (parameters (train_epoch zero add L U s bs)) b)
          = L (parameters (train_epoch zero add L U s bs)) b \<longrightarrow>
        grad (train_epoch zero add L U s (bs @ [b]))
          = Some (L (parameters (train_epoch zero add L U s bs)) b)
      \<and> parameters (train_epoch zero add L U s (bs @ [b]))
          = U (parameters (train_epoch zero add L U s bs))
              (L (parameters (train_epoch zero add L U s bs)) b))
   \<and> (loader e = bs @ [b]
        \<and> add zero (L (parameters (train_epoch zero add L U (train zero add L U loader e s) bs)) b)
            = L (parameters (train_epoch zero add L U (train zero add L U loader e s) bs)) b \<longrightarrow>
        grad (train zero add L U loader (Suc e) s)
          = Some (L (parameters (train_epoch zero add L U (train zero add L U loader e s) bs)) b))
   \<and> (grad s = Some a \<longrightarrow>
        grad (backward add L b s) = Some (add a (L (parameters s) b))
      \<and> grad (train_epoch_no_reset add L U s bs)
          = Some (foldl add a (pass_gradients L (training_pass_no_reset add L U) s bs)))
   \<and> (grad s = None \<longrightarrow>
        grad (train_epoch_no_reset add L U s (b # bs))
          = Some (foldl add (L (parameters s) b)
              (pass_gradients L (training_pass_no_reset add L U)
                 (training_pass_no_reset add L U s b) bs)))"
proof -
  have 1: "grad (backward add L b (zero_grad zero s))
     = Some (case grad s of None \<Rightarrow> L (parameters s) b | Some a \<Rightarrow> add zero (L (parameters s) b))"
    by (rule zero_grad_backward)
  have 2: "grad (backward add L b (zero_grad zero s)) = Some (L (parameters s) b)
      \<and> parameters (training_pass zero add L U s b) = U (parameters s) (L (parameters s) b)"
    if "add zero (L (parameters s) b) = L (parameters s) b"
    using that by (cases "grad s") (simp_all add: zero_grad_backward training_pass_eq)
  have 3: "grad (train_epoch zero add L U s (bs @ [b]))
          = Some (L (parameters (train_epoch zero add L U s bs)) b)
      \<and> parameters (train_epoch zero add L U s (bs @ [b]))
          = U (parameters (train_epoch zero add L U s bs))
              (L (parameters (train_epoch zero add L U s bs)) b)"
    if "add zero (L (parameters (train_epoch zero add L U s bs)) b)
          = L (parameters (train_epoch zero add L U s bs)) b"
    by (simp add: train_epoch_snoc
        training_pass_eq [where add = add and zero = zero and L = L and b = b
          and s = "train_epoch zero add L U s bs", OF that])
  have 4: "grad (train zero add L U loader (Suc e) s)
          = Some (L (parameters (train_epoch zero add L U (train zero add L U loader e s) bs)) b)"
    if "loader e = bs @ [b]"
      and "add zero (L (parameters (train_epoch zero add L U (train zero add L U loader e s) bs)) b)
            = L (parameters (train_epoch zero add L U (train zero add L U loader e s) bs)) b"
    by (simp add: train_Suc that(1) train_epoch_snoc
        training_pass_eq [where add = add and zero = zero and L = L and b = b
          and s = "train_epoch zero add L U (train zero add L U loader e s) bs", OF that(2)])
  have 5: "grad (backward add L b s) = Some (add a (L (parameters s) b))" if "grad s = Some a"
    using that by (simp add: backward_def)
  from 1 2 3 4 5 no_reset_accumulates [of s a add L U bs] no_reset_from_None [of s add L U b bs]
  show ?thesis by blast
qed

text \<open>
  Three batches with the rounding addition. From a fresh state, with the reset the third
  step uses the third gradient, \<open>-2\<close>; without it the step uses the sum, \<open>0\<close>, of the
  gradients \<open>-2, 0, 2\<close> computed on the way. From a state that holds the gradient 100,
  a pass with the reset computes \<open>-2\<close>, one without it 96; three passes without it
  end at \<open>-96\<close>, the gradients added in order with rounding, where the exact sum is
  \<open>-88\<close>.
\<close>

theorem zero_grad_isolates_batch_witness:
  "grad (train 0 rounding_add sample_loss_grad sample_update sample_loader 1 fresh_state) = Some (- 2)
   \<and> grad (train_epoch 0 rounding_add sample_loss_grad sample_update fresh_state [1, 2, 3]) = Some (- 2)
   \<and> sample_loss_grad
        (parameters (train_epoch 0 rounding_add sample_loss_grad sample_update fresh_state [1, 2])) 3 = - 2
   \<and> grad (train_epoch_no_reset rounding_add sample_loss_grad sample_update fresh_state [1, 2, 3]) = Some 0
   \<and> pass_gradients sample_loss_grad (training_pass_no_reset rounding_add sample_loss_grad sample_update)
        fresh_state [1, 2, 3] = [- 2, 0, 2]
   \<and> grad (backward rounding_add sample_loss_grad 1 (zero_grad 0 stale_state)) = Some (- 2)
   \<and> parameters (training_pass 0 rounding_add sample_loss_grad sample_update stale_state 1) = 2
   \<and> grad (backward rounding_add sample_loss_grad 1 stale_state) = Some 96
   \<and> pass_gradients sample_loss_grad (training_pass_no_reset rounding_add sample_loss_grad sample_update)
        stale_state [1, 2, 3] = [- 2, - 196, 10]
   \<and> grad (train_epoch_no_reset rounding_add sample_loss_grad sample_update stale_state [1, 2, 3])
        = Some (- 96)
   \<and> foldl rounding_add 100 [- 2, - 196, 10] = - 96
   \<and> 100 + sum_list [- 2, - 196, 10 :: int] = - 88"
proof -
  note run = fresh_state_def stale_state_def sample_loss_grad_def sample_update_def rounding_add_def
    train_def train_epoch_def training_pass_def training_pass_no_reset_def
    step_def backward_def zero_grad_def
  have n: "grad fresh_state = None" by (simp add: fresh_state_def)
  have st: "grad stale_state = Some 100" by (simp add: stale_state_def)
  have ld: "sample_loader 0 = [1, 2] @ [3]" by (simp add: sample_loader_def)
  have t0: "train 0 rounding_add sample_loss_grad sample_update sample_loader 0 fresh_state = fresh_state"
    by (simp add: train_def)
  have p: "pass_gradients sample_loss_grad (training_pass_no_reset rounding_add sample_loss_grad sample_update)
        fresh_state [1, 2, 3] = [- 2, 0, 2]"
    by (simp add: run)
  have p': "pass_gradients sample_loss_grad (training_pass_no_reset rounding_add sample_loss_grad sample_update)
        (training_pass_no_reset rounding_add sample_loss_grad sample_update fresh_state 1) [2, 3] = [0, 2]"
    by (simp add: run)
  have ps: "pass_gradients sample_loss_grad (training_pass_no_reset rounding_add sample_loss_grad sample_update)
        stale_state [1, 2, 3] = [- 2, - 196, 10]"
    by (simp add: run)
  have f: "foldl rounding_add 100 [- 2, - 196, 10] = - 96"
    by (simp add: rounding_add_def)
  have q: "sample_loss_grad
      (parameters (train_epoch 0 rounding_add sample_loss_grad sample_update fresh_state [1, 2])) 3 = - 2"
    by (simp add: run)
  have z3: "rounding_add 0 (- 2) = - 2" by (simp add: rounding_add_def)
  have g1: "sample_loss_grad (parameters stale_state) 1 = - 2"
    by (simp add: stale_state_def sample_loss_grad_def)
  have g0: "sample_loss_grad (parameters fresh_state) 1 = - 2"
    by (simp add: fresh_state_def sample_loss_grad_def)
  note A = zero_grad_isolates_batch [of rounding_add sample_loss_grad 3 0 fresh_state sample_update
      "[1, 2]" sample_loader 0 0]
  note B = zero_grad_isolates_batch [of rounding_add sample_loss_grad 1 0 fresh_state sample_update
      "[2, 3]" sample_loader 0 0]
  note C = zero_grad_isolates_batch [of rounding_add sample_loss_grad 1 0 stale_state sample_update
      "[1, 2, 3]" sample_loader 0 100]
  from A ld q t0 z3
  have a: "grad (train 0 rounding_add sample_loss_grad sample_update sample_loader 1 fresh_state) = Some (- 2)"
    by simp
  from A q z3
  have a': "grad (train_epoch 0 rounding_add sample_loss_grad sample_update fresh_state ([1, 2] @ [3]))
      = Some (- 2)"
    by simp
  from B n have "grad (train_epoch_no_reset rounding_add sample_loss_grad sample_update fresh_state (1 # [2, 3]))
      = Some (foldl rounding_add (sample_loss_grad (parameters fresh_state) 1)
          (pass_gradients sample_loss_grad
            (training_pass_no_reset rounding_add sample_loss_grad sample_update)
            (training_pass_no_reset rounding_add sample_loss_grad sample_update fresh_state 1) [2, 3]))"
    by blast
  with p' g0 have b: "grad (train_epoch_no_reset rounding_add sample_loss_grad sample_update fresh_state [1, 2, 3]) = Some 0"
    by (simp add: rounding_add_def)
  from C g1 z3 have c: "grad (backward rounding_add sample_loss_grad 1 (zero_grad 0 stale_state)) = Some (- 2)"
    and c': "parameters (training_pass 0 rounding_add sample_loss_grad sample_update stale_state 1) = 2"
    by (simp_all add: stale_state_def sample_update_def)
  from C st have "grad (backward rounding_add sample_loss_grad 1 stale_state)
        = Some (rounding_add 100 (sample_loss_grad (parameters stale_state) 1))"
    and "grad (train_epoch_no_reset rounding_add sample_loss_grad sample_update stale_state [1, 2, 3])
        = Some (foldl rounding_add 100 (pass_gradients sample_loss_grad
            (training_pass_no_reset rounding_add sample_loss_grad sample_update) stale_state [1, 2, 3]))"
    by blast+
  with ps f g1 have d: "grad (backward rounding_add sample_loss_grad 1 stale_state) = Some 96"
    and e: "grad (train_epoch_no_reset rounding_add sample_loss_grad sample_update stale_state [1, 2, 3]) = Some (- 96)"
    by (simp_all add: rounding_add_def)
  from a a' q b p c c' d ps e f show ?thesis by simp
qed

end
